theory Spec2Isabelle
  imports Complex_Main "HOL-Library.Sublist" "HOL-Library.Multiset"
    "HOL-Library.Char_ord" "HOL-Library.List_Lexorder" "HOL-Library.Product_Lexorder"
begin

section \<open>The view layer of palanaeum (\<^verbatim>\<open>palanaeum/views.py\<close>)\<close>

text \<open>
  The views are modelled as pure functions of the request and of the rows the ORM
  returns. Python integers are \<open>int\<close>; a Python \<open>str\<close> is a \<open>string\<close> holding its
  UTF-8 bytes; every exception a view can raise is a value of \<open>error\<close>, and a view
  returns \<open>error + response\<close>.
\<close>

subsection \<open>Requests\<close>

text \<open>
  \<open>request.GET\<close> is a \<open>QueryDict\<close>: the pairs of the query string, in order.
  \<open>QueryDict.get(key, default)\<close> gives the last value of the key, or the default.
  \<open>UserSettings.get_page_length(request)\<close> is defined in \<open>palanaeum.models\<close>; the
  model keeps its result as a field of the request.
\<close>

type_synonym querydict = "(string \<times> string) list"

definition querydict_get :: "querydict \<Rightarrow> string \<Rightarrow> string \<Rightarrow> string" where
  "querydict_get q key dflt = (case map_of (rev q) key of None \<Rightarrow> dflt | Some v \<Rightarrow> v)"

record request =
  GET :: querydict
  page_length :: int

datatype error =
    PageNotAnInteger
  | EmptyPage
  | ZeroDivisionError
  | AssertionError
  | DoesNotExist
  | Http404
  | PermissionDenied

subsection \<open>Python's \<open>int(str)\<close>\<close>

text \<open>
  \<open>int\<close> is a builtin of Python, not code of the repository: on a string it gives an
  integer or raises \<open>ValueError\<close> (\<open>None\<close>). It reads Unicode decimal digits and
  strips Unicode whitespace, so it is not modelled: the views and the paginator take it
  as the parameter \<open>py_int\<close>, and every theorem holds for whatever it is.
\<close>

type_synonym int_of_str = "string \<Rightarrow> int option"

subsection \<open>Django's \<open>Paginator\<close>\<close>

text \<open>
  The views build \<open>Paginator(object_list, per_page, orphans=...)\<close> and call
  \<open>paginator.page(number)\<close> and \<open>paginator.num_pages\<close>; \<open>allow_empty_first_page\<close>
  keeps its default \<open>True\<close>. The definitions follow
  \<open>django.core.paginator\<close>:
  \<^item> \<open>num_pages = int(ceil(max(1, count - orphans) / float(per_page)))\<close>;
  \<^item> \<open>validate_number\<close> raises \<open>PageNotAnInteger\<close> when \<open>int(number)\<close> fails,
    \<open>EmptyPage\<close> when the number is below 1 or above \<open>num_pages\<close> (page 1 is
    always allowed);
  \<^item> \<open>page(number)\<close> returns \<open>object_list[bottom:top]\<close> with
    \<open>bottom = (number - 1) * per_page\<close>, \<open>top = bottom + per_page\<close>, and
    \<open>top = count\<close> when \<open>top + orphans >= count\<close>.
  The ceiling of the float quotient is taken exactly. A queryset refuses a negative
  slice bound with an assertion.
\<close>

record 'a paginator =
  object_list :: "'a list"
  per_page :: int
  orphans :: int

record 'a page =
  page_object_list :: "'a list"
  page_number :: int

text \<open>The argument of \<open>page\<close> is the string of the query or an integer.\<close>

datatype page_arg = PStr string | PInt int

definition Paginator :: "'a list \<Rightarrow> int \<Rightarrow> int \<Rightarrow> 'a paginator" where
  "Paginator xs pp orph = \<lparr>object_list = xs, per_page = pp, orphans = orph\<rparr>"

definition paginator_count :: "'a paginator \<Rightarrow> int" where
  "paginator_count p = int (length (object_list p))"

definition num_pages :: "'a paginator \<Rightarrow> error + int" where
  "num_pages p =
     (let hits = max 1 (paginator_count p - orphans p)
      in if per_page p = 0 then Inl ZeroDivisionError
         else Inr (- ((- hits) div per_page p)))"

definition to_int :: "int_of_str \<Rightarrow> page_arg \<Rightarrow> int option" where
  "to_int py_int a = (case a of PStr s \<Rightarrow> py_int s | PInt n \<Rightarrow> Some n)"

definition validate_number :: "int_of_str \<Rightarrow> 'a paginator \<Rightarrow> page_arg \<Rightarrow> error + int" where
  "validate_number py_int p a =
     (case to_int py_int a of
        None \<Rightarrow> Inl PageNotAnInteger
      | Some number \<Rightarrow>
          if number < 1 then Inl EmptyPage
          else (case num_pages p of
                  Inl e \<Rightarrow> Inl e
                | Inr n \<Rightarrow>
                    if number > n then (if number = 1 then Inr number else Inl EmptyPage)
                    else Inr number))"

definition slice :: "'a list \<Rightarrow> int \<Rightarrow> int \<Rightarrow> error + 'a list" where
  "slice xs lo hi =
     (if lo < 0 \<or> hi < 0 then Inl AssertionError
      else Inr (take (nat hi - nat lo) (drop (nat lo) xs)))"

definition page :: "int_of_str \<Rightarrow> 'a paginator \<Rightarrow> page_arg \<Rightarrow> error + 'a page" where
  "page py_int p a =
     (case validate_number py_int p a of
        Inl e \<Rightarrow> Inl e
      | Inr number \<Rightarrow>
          (let bottom_i = (number - 1) * per_page p;
               top_i = bottom_i + per_page p;
               top_i = (if top_i + orphans p \<ge> paginator_count p then paginator_count p else top_i)
           in case slice (object_list p) bottom_i top_i of
                Inl e \<Rightarrow> Inl e
              | Inr objs \<Rightarrow> Inr \<lparr>page_object_list = objs, page_number = number\<rparr>))"

subsection \<open>Events and the events listing\<close>

record event =
  event_id :: int
  event_name :: string
  event_date :: int
  event_visible :: bool

text \<open>
  \<open>Event.all_visible\<close> is the manager of the visible events.
  \<open>QuerySet.order_by\<close> returns a new queryset and leaves the receiver as it was: a
  leading \<open>-\<close> sorts descending, later keys break the ties of earlier ones.
\<close>

definition Event_all_visible :: "event list \<Rightarrow> event list" where
  "Event_all_visible evs = filter event_visible evs"

definition sort_desc :: "('a \<Rightarrow> 'k::linorder) \<Rightarrow> 'a list \<Rightarrow> 'a list" where
  "sort_desc f xs = rev (sort_key f (rev xs))"

definition order_by1 :: "string \<Rightarrow> event list \<Rightarrow> event list" where
  "order_by1 key evs =
     (let desc = (key \<noteq> [] \<and> hd key = CHR ''-'');
          field = (if key \<noteq> [] \<and> hd key \<in> {CHR ''-'', CHR ''+''} then tl key else key)
      in if field = ''name'' then
           (if desc then sort_desc event_name evs else sort_key event_name evs)
         else if field = ''date'' then
           (if desc then sort_desc event_date evs else sort_key event_date evs)
         else evs)"

definition order_by :: "string list \<Rightarrow> event list \<Rightarrow> event list" where
  "order_by keys evs = foldr order_by1 keys evs"

text \<open>
  \<open>SortForm\<close> is defined in \<open>palanaeum.forms\<close>. The view gives it the choices
  \<open>name\<close> and \<open>date\<close> and the query, and reads \<open>is_valid()\<close> and the cleaned
  \<open>sort_by\<close> and \<open>sort_ord\<close>: the form is a parameter that returns the cleaned pair
  when the form is valid.
\<close>

type_synonym sort_form = "string list \<Rightarrow> querydict \<Rightarrow> (string \<times> string) option"

record events_context =
  ctx_paginator :: "event paginator"
  ctx_page :: "event page"

definition events ::
  "int_of_str \<Rightarrow> sort_form \<Rightarrow> event list \<Rightarrow> request \<Rightarrow> error + events_context" where
  "events py_int SortForm db request =
     (let events = Event_all_visible db;
          sort_form = SortForm [''name'', ''date''] (GET request);
          reordered = (case sort_form of
                         None \<Rightarrow> None
                       | Some (sort_by, sort_ord) \<Rightarrow>
                           Some (order_by [sort_ord @ sort_by, ''name''] events));
          page_length = page_length request;
          paginator = Paginator events page_length (page_length div 10);
          page_num = querydict_get (GET request) ''page'' ''1'';
          page = (case page py_int paginator (PStr page_num) of
                    Inl PageNotAnInteger \<Rightarrow> page py_int paginator (PInt 1)
                  | Inl EmptyPage \<Rightarrow>
                      (case num_pages paginator of
                         Inl e \<Rightarrow> Inl e
                       | Inr n \<Rightarrow> page py_int paginator (PInt n))
                  | Inl e \<Rightarrow> Inl e
                  | Inr pg \<Rightarrow> Inr pg)
      in case page of
           Inl e \<Rightarrow> Inl e
         | Inr pg \<Rightarrow> Inr \<lparr>ctx_paginator = paginator, ctx_page = pg\<rparr>)"

subsection \<open>Single events and entries\<close>

text \<open>
  \<open>get_object_or_404(Model, pk=...)\<close> returns the row with that primary key or raises
  \<open>Http404\<close>. \<open>event.visible()\<close> is the event's visibility, \<open>entry.event\<close> follows
  the entry's foreign key. \<open>slugify\<close> (Django) and \<open>reverse\<close> (the URL configuration)
  are parameters.
\<close>

record entry =
  entry_id :: int
  entry_event_id :: int
  entry_visible :: bool
  entry_text :: string

definition get_object_or_404 :: "('a \<Rightarrow> int) \<Rightarrow> 'a list \<Rightarrow> int \<Rightarrow> error + 'a" where
  "get_object_or_404 pk_of objects pk =
     (case find (\<lambda>x. pk_of x = pk) objects of None \<Rightarrow> Inl Http404 | Some x \<Rightarrow> Inr x)"

definition Entry_all_visible :: "entry list \<Rightarrow> entry list" where
  "Entry_all_visible es = filter entry_visible es"

function str_nat :: "nat \<Rightarrow> string" where
  "str_nat n =
     (if n < 10 then [char_of (48 + n)]
      else str_nat (n div 10) @ [char_of (48 + n mod 10)])"
  by pat_completeness auto
termination
  by (relation "measure id") auto

definition str_int :: "int \<Rightarrow> string" where
  "str_int i = (if i < 0 then CHR ''-'' # str_nat (nat (- i)) else str_nat (nat i))"

datatype response =
    Redirect string
  | EventPage event "int list"

text \<open>
  The page of an event is rendered from the event and the ids of its visible entries
  (line 109); the rest of its context comes from \<open>Entry.prefetch_entries\<close>,
  \<open>event.sources_iterator\<close> and \<open>get_config\<close>, none of which is in this file.
\<close>

definition view_event :: "event list \<Rightarrow> entry list \<Rightarrow> int \<Rightarrow> error + response" where
  "view_event Event_objects Entry_objects ev_id =
     (case get_object_or_404 event_id Event_objects ev_id of
        Inl e \<Rightarrow> Inl e
      | Inr event \<Rightarrow>
          if \<not> event_visible event then Inl PermissionDenied
          else
            (let entry_ids = map entry_id
                   (filter (\<lambda>e. entry_event_id e = event_id event)
                      (Entry_all_visible Entry_objects))
             in Inr (EventPage event entry_ids)))"

definition view_entry ::
  "(string \<Rightarrow> string) \<Rightarrow> (string \<Rightarrow> string list \<Rightarrow> string) \<Rightarrow>
   event list \<Rightarrow> entry list \<Rightarrow> int \<Rightarrow> error + response" where
  "view_entry slugify reverse Event_objects Entry_objects en_id =
     (case get_object_or_404 entry_id Entry_objects en_id of
        Inl e \<Rightarrow> Inl e
      | Inr entry \<Rightarrow>
          (case find (\<lambda>ev. event_id ev = entry_event_id entry) Event_objects of
             None \<Rightarrow> Inl DoesNotExist
           | Some event \<Rightarrow>
               Inr (Redirect
                 (reverse ''view_event'' [str_int (entry_event_id entry), slugify (event_name event)]
                    @ ''#e'' @ str_int (entry_id entry)))))"

text \<open>
  Django answers an uncaught \<open>Http404\<close> with status 404, \<open>PermissionDenied\<close> with
  403 and any other exception with 500; a redirect is a 302, a rendered page a 200.
\<close>

definition status_code :: "error + response \<Rightarrow> int" where
  "status_code r =
     (case r of
        Inl Http404 \<Rightarrow> 404
      | Inl PermissionDenied \<Rightarrow> 403
      | Inl _ \<Rightarrow> 500
      | Inr (Redirect _) \<Rightarrow> 302
      | Inr (EventPage _ _) \<Rightarrow> 200)"

subsection \<open>The tag query\<close>

text \<open>
  A tag has a name and is attached to entries and to events; the model keeps the ids of
  both. \<open>name__startswith\<close> and \<open>name__contains\<close> are read as Python's
  \<open>startswith\<close> and \<open>in\<close>. \<open>sorted\<close> is stable, as \<open>sort_key\<close> is.
\<close>

record tag =
  tag_name :: string
  tag_entries :: "int list"
  tag_events :: "int list"

text \<open>
  \<open>annotate(entry_count=Count('entries'), event_count=Count('events'))\<close> is one
  query: the tag is joined (left outer) with its entries and with its events, which
  gives one row for each pair of an entry and an event of the tag, with \<open>NULL\<close> where
  the tag has none; the rows are grouped by tag, and \<open>Count\<close> of a column counts the
  rows of the group where the column is not \<open>NULL\<close>. No \<open>distinct\<close> is asked for.
\<close>

definition outer_join :: "int list \<Rightarrow> int option list" where
  "outer_join ids = (if ids = [] then [None] else map Some ids)"

definition joined_rows :: "'a tag_scheme \<Rightarrow> (int option \<times> int option) list" where
  "joined_rows t = List.product (outer_join (tag_entries t)) (outer_join (tag_events t))"

definition Count :: "('r \<Rightarrow> int option) \<Rightarrow> 'r list \<Rightarrow> int" where
  "Count col rows = int (length (filter (\<lambda>r. col r \<noteq> None) rows))"

record annotated_tag = tag +
  entry_count :: int
  event_count :: int

definition annotate :: "tag \<Rightarrow> annotated_tag" where
  "annotate t =
     \<lparr>tag_name = tag_name t, tag_entries = tag_entries t, tag_events = tag_events t,
      entry_count = Count fst (joined_rows t), event_count = Count snd (joined_rows t)\<rparr>"

record tag_result =
  result_id :: string
  result_text :: string

record tags_response =
  results :: "tag_result list"

definition tag_filter :: "string \<Rightarrow> tag \<Rightarrow> bool" where
  "tag_filter query t = (prefix query (tag_name t) \<or> sublist (CHR '' '' # query) (tag_name t))"

definition tag_item :: "annotated_tag \<Rightarrow> tag_result" where
  "tag_item t =
     \<lparr>result_id = tag_name t,
      result_text = tag_name t @ '' ('' @ str_int (entry_count t + event_count t) @ '')''\<rparr>"

definition get_tags :: "tag list \<Rightarrow> request \<Rightarrow> tags_response" where
  "get_tags Tag_objects request =
     (let query = querydict_get (GET request) ''q'' [];
          tags = map annotate (filter (tag_filter query) Tag_objects)
      in \<lparr>results = map tag_item
            (sort_key (\<lambda>tag. - (entry_count tag + event_count tag)) tags)\<rparr>)"

text \<open>
  The combined usage count in the words of the spec: the number of entries of the tag
  plus the number of its events.
\<close>

definition usage_count :: "'a tag_scheme \<Rightarrow> int" where
  "usage_count t = int (length (tag_entries t)) + int (length (tag_events t))"

subsection \<open>The new sources of the home page\<close>

text \<open>
  Audio and image sources carry a creation date, which may be missing. A date is an
  instant, in microseconds since the epoch. \<open>order_by('-created_date')\<close> is done by
  the database, which puts the rows without a date first or last depending on the
  backend (\<open>nulls_first\<close>). The default of the sort key is midnight of 1900-01-01 in
  the current time zone, whose offset from UTC in seconds is \<open>tz\<close>.
\<close>

datatype source_kind = AudioSource | ImageSource

record source =
  source_kind :: source_kind
  source_id :: int
  created_date :: "int option"
  source_visible :: bool

definition Source_all_visible :: "source list \<Rightarrow> source list" where
  "Source_all_visible xs = filter source_visible xs"

definition order_by_created_desc :: "bool \<Rightarrow> source list \<Rightarrow> source list" where
  "order_by_created_desc nulls_first xs =
     (let dated = sort_desc (\<lambda>s. the (created_date s)) (filter (\<lambda>s. created_date s \<noteq> None) xs);
          undated = filter (\<lambda>s. created_date s = None) xs
      in if nulls_first then undated @ dated else dated @ undated)"

definition datetime_1900 :: "int \<Rightarrow> int" where
  "datetime_1900 tz = (- 2208988800 - tz) * 1000000"

definition source_key :: "int \<Rightarrow> source \<Rightarrow> int" where
  "source_key tz source =
     (case created_date source of None \<Rightarrow> datetime_1900 tz | Some d \<Rightarrow> d)"

definition index_new_sources :: "bool \<Rightarrow> int \<Rightarrow> source list \<Rightarrow> source list \<Rightarrow> source list" where
  "index_new_sources nulls_first tz AudioSource_objects ImageSource_objects =
     (let new_sources = [];
          new_sources = new_sources
            @ take 5 (order_by_created_desc nulls_first (Source_all_visible AudioSource_objects));
          new_sources = new_sources
            @ take 5 (order_by_created_desc nulls_first (Source_all_visible ImageSource_objects));
          new_sources = sort_desc (source_key tz) new_sources
      in take 5 new_sources)"

text \<open>The sources without a date come after every source with one.\<close>

definition undated_last :: "source list \<Rightarrow> bool" where
  "undated_last xs =
     list_all (\<lambda>s. created_date s = None) (dropWhile (\<lambda>s. created_date s \<noteq> None) xs)"

text \<open>
  The claim's words. The five newest sources of a table, by the date the claim gives
  them (1900-01-01 for a source without a date); and \<open>a\<close> is at least as new as
  \<open>b\<close>, where a source without a date is older than any source with one.
\<close>

definition five_newest :: "int \<Rightarrow> source list \<Rightarrow> source list" where
  "five_newest tz xs = take 5 (sort_desc (source_key tz) xs)"

definition at_least_as_new :: "source \<Rightarrow> source \<Rightarrow> bool" where
  "at_least_as_new a b =
     (case created_date b of
        None \<Rightarrow> True
      | Some db \<Rightarrow> (case created_date a of None \<Rightarrow> False | Some da \<Rightarrow> db \<le> da))"

subsection \<open>The advanced search\<close>

text \<open>
  The view uses a search filter through its truth value (\<open>if search_filter\<close>,
  \<open>any(filters)\<close>) and through \<open>as_url_param()\<close>; the search module, which is not
  part of this file, uses its predicate on entries and its contribution to the score.
\<close>

record search_filter =
  filter_active :: bool
  as_url_param :: string
  filter_matches :: "entry \<Rightarrow> bool"
  filter_score :: "entry \<Rightarrow> int"

text \<open>
  \<open>urllib.parse.urlencode\<close> writes \<open>key=value\<close> pairs joined by \<open>&\<close>, each side
  through \<open>quote_plus\<close>: letters, digits and \<open>_.-~\<close> stay, a space becomes \<open>+\<close>
  and every other byte becomes \<open>%XX\<close>.
\<close>

definition is_alnum :: "char \<Rightarrow> bool" where
  "is_alnum c =
     ((CHR ''0'' \<le> c \<and> c \<le> CHR ''9'') \<or> (CHR ''A'' \<le> c \<and> c \<le> CHR ''Z'')
      \<or> (CHR ''a'' \<le> c \<and> c \<le> CHR ''z''))"

definition hex_digit :: "nat \<Rightarrow> char" where
  "hex_digit n = ''0123456789ABCDEF'' ! (n mod 16)"

definition quote_plus_char :: "char \<Rightarrow> string" where
  "quote_plus_char c =
     (if is_alnum c \<or> c \<in> set ''_.-~'' then [c]
      else if c = CHR '' '' then ''+''
      else [CHR ''%'', hex_digit (of_char c div 16), hex_digit (of_char c mod 16)])"

definition quote_plus :: "string \<Rightarrow> string" where
  "quote_plus s = concat (map quote_plus_char s)"

fun join :: "string \<Rightarrow> string list \<Rightarrow> string" where
  "join sep [] = []"
| "join sep [x] = x"
| "join sep (x # y # ys) = x @ sep @ join sep (y # ys)"

definition urlencode :: "(string \<times> string) list \<Rightarrow> string" where
  "urlencode pairs = join ''&'' (map (\<lambda>(k, v). quote_plus k @ ''='' @ quote_plus v) pairs)"

text \<open>
  Modelled from the spec: \<open>init_filters\<close> (\<open>palanaeum.search\<close>, the spec's
  \<open>build_filters\<close>) is missing. The spec: it parses the recognized parameter keys of
  the request into typed filter objects, in a fixed order; an unrecognized or empty
  parameter yields an inactive filter that contributes no predicate and serializes to
  nothing. The recognized keys, with the predicate and the score that a value of the key
  stands for, are a parameter.
\<close>

record filter_kind =
  kind_key :: string
  kind_matches :: "string \<Rightarrow> entry \<Rightarrow> bool"
  kind_score :: "string \<Rightarrow> entry \<Rightarrow> int"

text \<open>
  Modelled from the spec: the inactive filter that \<open>init_filters\<close> (missing) yields:
  it is false, contributes no predicate and serializes to nothing.
\<close>

definition inactive_filter :: search_filter where
  "inactive_filter =
     \<lparr>filter_active = False, as_url_param = [],
      filter_matches = (\<lambda>e. True), filter_score = (\<lambda>e. 0)\<rparr>"

text \<open>
  Modelled from the spec: the filter that \<open>init_filters\<close> (missing) makes for one
  recognized key: inactive when the parameter is absent or empty, else the typed filter
  of its value.
\<close>

definition init_filter :: "querydict \<Rightarrow> filter_kind \<Rightarrow> search_filter" where
  "init_filter params k =
     (let v = querydict_get params (kind_key k) []
      in if v = [] then inactive_filter
         else \<lparr>filter_active = True, as_url_param = urlencode [(kind_key k, v)],
               filter_matches = kind_matches k v, filter_score = kind_score k v\<rparr>)"

text \<open>
  Modelled from the spec: \<open>init_filters\<close> itself (missing), one filter for each
  recognized key, in their order.
\<close>

definition init_filters :: "filter_kind list \<Rightarrow> request \<Rightarrow> search_filter list" where
  "init_filters kinds request = map (init_filter (GET request)) kinds"

text \<open>
  Modelled from the spec: \<open>execute_filters\<close> (\<open>palanaeum.search\<close>, the spec's
  \<open>evaluate\<close>) is missing. The spec: it fails closed (empty mapping) if no filter is
  active; otherwise the filters combine conjunctively to select entries of the corpus,
  and each matching entry gets a relevance score, higher the more the filters find in
  it. The mapping is kept as the list of its pairs, in the order of the corpus.
\<close>

definition execute_filters :: "entry list \<Rightarrow> search_filter list \<Rightarrow> (entry \<times> int) list" where
  "execute_filters corpus filters =
     (let active = filter filter_active filters
      in if active = [] then []
         else map (\<lambda>e. (e, sum_list (map (\<lambda>f. filter_score f e) active)))
                (filter (\<lambda>e. list_all (\<lambda>f. filter_matches f e) active) corpus))"

text \<open>
  Modelled from the spec: \<open>get_search_results\<close> (\<open>palanaeum.search\<close>, the spec's
  \<open>order\<close>) is missing. The spec: it sorts by the requested key; \<open>rank\<close> sorts by
  descending score, ties broken by ascending entry identity. The sort key of an entry
  under any other ordering is a parameter.
\<close>

definition get_search_results ::
  "(string \<Rightarrow> entry \<Rightarrow> int) \<Rightarrow> (entry \<times> int) list \<Rightarrow> string \<Rightarrow> entry list" where
  "get_search_results ordering_key entries_scores ordering_name =
     (if ordering_name = ''rank''
      then map fst (sort_key (\<lambda>(e, score). (- score, entry_id e)) entries_scores)
      else map fst (sort_key (\<lambda>(e, score). (ordering_key ordering_name e, entry_id e))
                      entries_scores))"

text \<open>
  Modelled from the spec: \<open>paginate_search_results\<close> (\<open>palanaeum.search\<close>, the
  spec's \<open>paginate\<close>) is missing. The spec: it gives the page view of the ordered
  entries for the page size of the user and the page number of the request, a
  non-numeric number falling back to the first page and one beyond the last to the last
  page, as the pagination of the framework does.
\<close>

definition paginate_search_results ::
  "int_of_str \<Rightarrow> request \<Rightarrow> entry list \<Rightarrow>
   error + (entry list \<times> entry paginator \<times> entry page)" where
  "paginate_search_results py_int request search_results =
     (let page_length = page_length request;
          paginator = Paginator search_results page_length (page_length div 10);
          page_num = querydict_get (GET request) ''page'' ''1'';
          page = (case page py_int paginator (PStr page_num) of
                    Inl PageNotAnInteger \<Rightarrow> page py_int paginator (PInt 1)
                  | Inl EmptyPage \<Rightarrow>
                      (case num_pages paginator of
                         Inl e \<Rightarrow> Inl e
                       | Inr n \<Rightarrow> page py_int paginator (PInt n))
                  | Inl e \<Rightarrow> Inl e
                  | Inr pg \<Rightarrow> Inr pg)
      in case page of
           Inl e \<Rightarrow> Inl e
         | Inr pg \<Rightarrow> Inr (page_object_list pg, paginator, pg))"

text \<open>
  What the search needs besides the request: the searchable entries, the recognized
  filters and the sort keys of the orderings.
\<close>

record search_env =
  corpus :: "entry list"
  filter_kinds :: "filter_kind list"
  ordering_key :: "string \<Rightarrow> entry \<Rightarrow> int"

record search_context =
  sc_paginator :: "entry paginator option"
  sc_entries :: "entry list"
  sc_filters :: "search_filter list"
  sc_search_done :: bool
  sc_query :: string
  sc_search_params :: string
  sc_page :: "entry page option"
  sc_search_time :: real
  sc_ordering :: string

text \<open>The loop of lines 197 to 199, which appends the parameter of each true filter.\<close>

fun append_params :: "string list \<Rightarrow> search_filter list \<Rightarrow> string list" where
  "append_params search_params [] = search_params"
| "append_params search_params (search_filter # filters) =
     append_params
       (if filter_active search_filter then search_params @ [as_url_param search_filter]
        else search_params)
       filters"

text \<open>
  \<open>adv_search_from\<close> is the view from line 194 on, for the filters that
  \<open>init_filters\<close> returned. The two readings of \<open>time.time()\<close> are \<open>clock\<close>; the
  difference of the two floats is taken as a real number.
\<close>

definition adv_search_from ::
  "int_of_str \<Rightarrow> search_env \<Rightarrow> real \<times> real \<Rightarrow> request \<Rightarrow> search_filter list \<Rightarrow>
   error + search_context" where
  "adv_search_from py_int env clock request filters =
     (let ordering = querydict_get (GET request) ''ordering'' ''rank'';
          search_params = [urlencode [(''ordering'', ordering)]];
          search_params = append_params search_params filters;
          search_params = join ''&'' search_params;
          context = (\<lambda>entries paginator page search_time.
             \<lparr>sc_paginator = paginator, sc_entries = entries, sc_filters = filters,
              sc_search_done = list_ex filter_active filters,
              sc_query = querydict_get (GET request) ''query'' [],
              sc_search_params = search_params, sc_page = page,
              sc_search_time = search_time, sc_ordering = ordering\<rparr>)
      in if list_ex filter_active filters then
           (let start_time = fst clock;
                entries_scores = execute_filters (corpus env) filters
            in case paginate_search_results py_int request
                      (get_search_results (ordering_key env) entries_scores ordering) of
                 Inl e \<Rightarrow> Inl e
               | Inr (entries, paginator, pg) \<Rightarrow>
                   Inr (context entries (Some paginator) (Some pg) (snd clock - start_time)))
         else Inr (context [] None None 0))"

definition adv_search ::
  "int_of_str \<Rightarrow> search_env \<Rightarrow> real \<times> real \<Rightarrow> request \<Rightarrow> error + search_context" where
  "adv_search py_int env clock request =
     (let filters = init_filters (filter_kinds env) request
      in adv_search_from py_int env clock request filters)"

subsection \<open>Sample data\<close>

text \<open>A small site, on which the theorems below are run.\<close>

text \<open>
  A sample value for the parameter \<open>py_int\<close>: it reads the ASCII decimal integers
  (whitespace \<open>0x09\<close> to \<open>0x0D\<close> and \<open>0x20\<close> around, an optional sign, digits
  with single underscores between them) and gives \<open>None\<close> on every other string.
\<close>

definition is_space :: "char \<Rightarrow> bool" where
  "is_space c = (c \<in> set [CHR '' '', CHR 0x09, CHR 0x0A, CHR 0x0B, CHR 0x0C, CHR 0x0D])"

definition is_digit :: "char \<Rightarrow> bool" where
  "is_digit c = (CHR ''0'' \<le> c \<and> c \<le> CHR ''9'')"

definition digit_val :: "char \<Rightarrow> int" where
  "digit_val c = int (of_char c) - 48"

definition strip :: "string \<Rightarrow> string" where
  "strip s = rev (dropWhile is_space (rev (dropWhile is_space s)))"

fun digits_ok :: "string \<Rightarrow> bool" where
  "digits_ok [] = False"
| "digits_ok [c] = is_digit c"
| "digits_ok (c # d # cs) =
     (if is_digit c then
        (if d = CHR ''_'' then digits_ok cs else digits_ok (d # cs))
      else False)"

definition digits_value :: "string \<Rightarrow> int" where
  "digits_value s = foldl (\<lambda>acc c. 10 * acc + digit_val c) 0 (filter is_digit s)"

definition sample_py_int :: int_of_str where
  "sample_py_int s =
     (case strip s of
        [] \<Rightarrow> None
      | c # cs \<Rightarrow>
          if c = CHR ''-'' then (if digits_ok cs then Some (- digits_value cs) else None)
          else if c = CHR ''+'' then (if digits_ok cs then Some (digits_value cs) else None)
          else if digits_ok (c # cs) then Some (digits_value (c # cs)) else None)"

definition sample_events :: "event list" where
  "sample_events =
     [\<lparr>event_id = 1, event_name = ''Signing'', event_date = 10, event_visible = True\<rparr>,
      \<lparr>event_id = 2, event_name = ''Draft'', event_date = 20, event_visible = False\<rparr>,
      \<lparr>event_id = 3, event_name = ''Panel'', event_date = 5, event_visible = True\<rparr>,
      \<lparr>event_id = 4, event_name = ''Reading'', event_date = 7, event_visible = True\<rparr>]"

definition sample_sort_form :: sort_form where
  "sample_sort_form choices q =
     (case (map_of (rev q) ''sort_by'', map_of (rev q) ''sort_ord'') of
        (Some b, Some d) \<Rightarrow> if b \<in> set choices then Some (b, d) else None
      | _ \<Rightarrow> None)"

definition sample_entries :: "entry list" where
  "sample_entries =
     [\<lparr>entry_id = 11, entry_event_id = 1, entry_visible = True, entry_text = ''a storm at sea''\<rparr>,
      \<lparr>entry_id = 12, entry_event_id = 1, entry_visible = True, entry_text = ''calm weather''\<rparr>,
      \<lparr>entry_id = 13, entry_event_id = 3, entry_visible = False, entry_text = ''the storm ends''\<rparr>,
      \<lparr>entry_id = 14, entry_event_id = 2, entry_visible = True, entry_text = ''storm notes''\<rparr>]"

definition sample_slugify :: "string \<Rightarrow> string" where
  "sample_slugify s = map (\<lambda>c. if c = CHR '' '' then CHR ''-'' else c) s"

definition sample_reverse :: "string \<Rightarrow> string list \<Rightarrow> string" where
  "sample_reverse name args = ''/'' @ join ''/'' (name # args) @ ''/''"

definition sample_kinds :: "filter_kind list" where
  "sample_kinds =
     [\<lparr>kind_key = ''query'',
       kind_matches = (\<lambda>v e. sublist v (entry_text e)),
       kind_score = (\<lambda>v e. if prefix v (entry_text e) then 2 else 1)\<rparr>,
      \<lparr>kind_key = ''event'',
       kind_matches = (\<lambda>v e. str_int (entry_event_id e) = v),
       kind_score = (\<lambda>v e. 0)\<rparr>]"

definition sample_env :: search_env where
  "sample_env =
     \<lparr>corpus = sample_entries, filter_kinds = sample_kinds,
      ordering_key = (\<lambda>name e. entry_event_id e)\<rparr>"

definition sample_request :: request where
  "sample_request =
     \<lparr>GET = [(''query'', ''storm''), (''tag'', ''x y''), (''ordering'', ''r k/~'')],
      page_length = 2\<rparr>"

definition sample_audio :: "source list" where
  "sample_audio =
     [\<lparr>source_kind = AudioSource, source_id = 1, created_date = Some 1500000000000000, source_visible = True\<rparr>,
      \<lparr>source_kind = AudioSource, source_id = 2, created_date = None, source_visible = True\<rparr>,
      \<lparr>source_kind = AudioSource, source_id = 3, created_date = Some 1510000000000000, source_visible = True\<rparr>,
      \<lparr>source_kind = AudioSource, source_id = 4, created_date = Some 1530000000000000, source_visible = False\<rparr>,
      \<lparr>source_kind = AudioSource, source_id = 5, created_date = None, source_visible = True\<rparr>,
      \<lparr>source_kind = AudioSource, source_id = 6, created_date = None, source_visible = True\<rparr>,
      \<lparr>source_kind = AudioSource, source_id = 7, created_date = None, source_visible = True\<rparr>,
      \<lparr>source_kind = AudioSource, source_id = 8, created_date = None, source_visible = True\<rparr>]"

definition sample_images :: "source list" where
  "sample_images =
     [\<lparr>source_kind = ImageSource, source_id = 21, created_date = Some 1505000000000000, source_visible = True\<rparr>,
      \<lparr>source_kind = ImageSource, source_id = 22, created_date = None, source_visible = True\<rparr>,
      \<lparr>source_kind = ImageSource, source_id = 23, created_date = Some 1520000000000000, source_visible = True\<rparr>]"

text \<open>An audio table with five sources without a date and five dated ones.\<close>

definition undated_audio :: "source list" where
  "undated_audio =
     [\<lparr>source_kind = AudioSource, source_id = 1, created_date = None, source_visible = True\<rparr>,
      \<lparr>source_kind = AudioSource, source_id = 2, created_date = None, source_visible = True\<rparr>,
      \<lparr>source_kind = AudioSource, source_id = 3, created_date = None, source_visible = True\<rparr>,
      \<lparr>source_kind = AudioSource, source_id = 4, created_date = None, source_visible = True\<rparr>,
      \<lparr>source_kind = AudioSource, source_id = 5, created_date = None, source_visible = True\<rparr>,
      \<lparr>source_kind = AudioSource, source_id = 6, created_date = Some 1500000000000000, source_visible = True\<rparr>,
      \<lparr>source_kind = AudioSource, source_id = 7, created_date = Some 1510000000000000, source_visible = True\<rparr>,
      \<lparr>source_kind = AudioSource, source_id = 8, created_date = Some 1520000000000000, source_visible = True\<rparr>,
      \<lparr>source_kind = AudioSource, source_id = 9, created_date = Some 1530000000000000, source_visible = True\<rparr>,
      \<lparr>source_kind = AudioSource, source_id = 10, created_date = Some 1540000000000000, source_visible = True\<rparr>]"

definition request_page_abc :: request where
  "request_page_abc = \<lparr>GET = [(''query'', ''storm''), (''page'', ''abc'')], page_length = 2\<rparr>"

definition request_page_7 :: request where
  "request_page_7 = \<lparr>GET = [(''query'', ''storm''), (''page'', ''7'')], page_length = 2\<rparr>"

section \<open>Pagination\<close>

subsection \<open>The number of pages and the slices\<close>

lemma ceil_bounds:
  fixes h L :: int
  assumes "0 < L"
  shows "(- ((- h) div L) - 1) * L < h" and "h \<le> - ((- h) div L) * L"
proof -
  define q where "q = (- h) div L"
  define r where "r = (- h) mod L"
  have r: "0 \<le> r" "r < L" using assms by (simp_all add: r_def)
  have e: "- h = q * L + r" by (simp add: q_def r_def)
  have x: "(- q - 1) * L = - (q * L) - L" by (simp add: algebra_simps)
  show "(- ((- h) div L) - 1) * L < h"
    unfolding q_def [symmetric] x using e r by linarith
  show "h \<le> - ((- h) div L) * L"
    unfolding q_def [symmetric] using e r by simp
qed


lemma num_pages_ge1:
  assumes "0 < per_page p" "num_pages p = Inr N"
  shows "1 \<le> N"
proof -
  let ?h = "max 1 (paginator_count p - orphans p)"
  have N: "N = - ((- ?h) div per_page p)"
    using assms by (simp add: num_pages_def Let_def)
  have "?h \<le> N * per_page p" unfolding N using ceil_bounds(2) [OF assms(1)] by simp
  then have "0 < N * per_page p" by linarith
  then have "0 < N" using assms(1) by (simp add: zero_less_mult_iff)
  then show ?thesis by simp
qed

text \<open>A page before the last one is a full page.\<close>

lemma page_inner:
  assumes L: "0 < per_page p" and o: "0 \<le> orphans p"
    and N: "num_pages p = Inr N" and n: "1 \<le> n" "n < N"
  shows "page py_int p (PInt n) =
    Inr \<lparr>page_object_list =
           take (nat (per_page p)) (drop (nat ((n - 1) * per_page p)) (object_list p)),
         page_number = n\<rparr>"
proof -
  let ?L = "per_page p"
  let ?h = "max 1 (paginator_count p - orphans p)"
  have Ne: "N = - ((- ?h) div ?L)"
    using L N by (simp add: num_pages_def Let_def)
  have "(N - 1) * ?L < ?h" unfolding Ne using ceil_bounds(1) [OF L] by simp
  moreover have "n * ?L \<le> (N - 1) * ?L" using n L by (simp add: mult_right_mono)
  ultimately have lt: "n * ?L < ?h" by linarith
  have "1 * 1 \<le> n * ?L" using n L by (intro mult_mono) simp_all
  then have h: "?h = paginator_count p - orphans p" using lt by linarith
  have top: "\<not> (n - 1) * ?L + ?L + orphans p \<ge> paginator_count p"
    using lt h by (simp add: algebra_simps)
  have b: "0 \<le> (n - 1) * ?L" using n L by simp
  have v: "validate_number py_int p (PInt n) = Inr n"
    using n N by (simp add: validate_number_def to_int_def)
  have d: "nat ((n - 1) * ?L + ?L) - nat ((n - 1) * ?L) = nat ?L"
    using b L by linarith
  show ?thesis
    using v top b L d by (simp add: page_def Let_def slice_def)
qed

text \<open>The last page takes everything that is left, the orphans included.\<close>

lemma page_final:
  assumes L: "0 < per_page p" and o: "0 \<le> orphans p"
    and N: "num_pages p = Inr N"
  shows "page py_int p (PInt N) =
    Inr \<lparr>page_object_list = drop (nat ((N - 1) * per_page p)) (object_list p),
         page_number = N\<rparr>"
proof -
  let ?L = "per_page p"
  let ?h = "max 1 (paginator_count p - orphans p)"
  have Ne: "N = - ((- ?h) div ?L)"
    using L N by (simp add: num_pages_def Let_def)
  have N1: "1 \<le> N" using num_pages_ge1 [OF L N] .
  have "?h \<le> N * ?L" unfolding Ne using ceil_bounds(2) [OF L] by simp
  then have top: "(N - 1) * ?L + ?L + orphans p \<ge> paginator_count p"
    by (simp add: algebra_simps)
  have b: "0 \<le> (N - 1) * ?L" using N1 L by simp
  have v: "validate_number py_int p (PInt N) = Inr N"
    using N1 N by (simp add: validate_number_def to_int_def)
  show ?thesis
    using v top b by (simp add: page_def Let_def slice_def paginator_count_def)
qed

lemma page_first:
  assumes L: "0 < per_page p" and o: "0 \<le> orphans p"
  shows "\<exists>pg. page py_int p (PInt 1) = Inr pg \<and> page_number pg = 1"
proof -
  obtain N where N: "num_pages p = Inr N"
    using L by (simp add: num_pages_def Let_def)
  have "1 \<le> N" using num_pages_ge1 [OF L N] .
  then consider "N = 1" | "1 < N" by linarith
  then show ?thesis
  proof cases
    case 1
    then show ?thesis using page_final [OF L o N] by simp
  next
    case 2
    then show ?thesis using page_inner [OF L o N, of 1] by simp
  qed
qed




subsection \<open>The page that a listing shows\<close>

text \<open>
  The events listing and the search listing ask for the page of the request and fall
  back in the same way. When \<open>int\<close> fails on the page parameter, the fallback is
  page 1.
\<close>

lemma fallback_first:
  assumes L: "0 < per_page P" and o: "0 \<le> orphans P" and none: "py_int s = None"
  shows "\<exists>pg. (case page py_int P (PStr s) of
                Inl PageNotAnInteger \<Rightarrow> page py_int P (PInt 1)
              | Inl EmptyPage \<Rightarrow>
                  (case num_pages P of
                     Inl e \<Rightarrow> Inl e
                   | Inr n \<Rightarrow> page py_int P (PInt n))
              | Inl e \<Rightarrow> Inl e
              | Inr pg \<Rightarrow> Inr pg) = Inr pg
            \<and> page py_int P (PInt 1) = Inr pg \<and> page_number pg = 1"
proof -
  have "page py_int P (PStr s) = Inl PageNotAnInteger"
    using none by (simp add: page_def validate_number_def to_int_def)
  moreover obtain pg where "page py_int P (PInt 1) = Inr pg" "page_number pg = 1"
    using page_first [OF L o] by blast
  ultimately show ?thesis by simp
qed

text \<open>When the page parameter is a number above the number of pages, it is the last page.\<close>

lemma fallback_last:
  assumes L: "0 < per_page P" and o: "0 \<le> orphans P"
    and some: "py_int s = Some n" and N: "num_pages P = Inr N" and lt: "N < n"
  shows "\<exists>pg. (case page py_int P (PStr s) of
                Inl PageNotAnInteger \<Rightarrow> page py_int P (PInt 1)
              | Inl EmptyPage \<Rightarrow>
                  (case num_pages P of
                     Inl e \<Rightarrow> Inl e
                   | Inr n \<Rightarrow> page py_int P (PInt n))
              | Inl e \<Rightarrow> Inl e
              | Inr pg \<Rightarrow> Inr pg) = Inr pg
            \<and> page py_int P (PInt N) = Inr pg \<and> page_number pg = N"
proof -
  have "1 \<le> N" using num_pages_ge1 [OF L N] .
  then have "page py_int P (PStr s) = Inl EmptyPage"
    using some N lt by (simp add: page_def validate_number_def to_int_def)
  moreover have "page py_int P (PInt N) =
      Inr \<lparr>page_object_list = drop (nat ((N - 1) * per_page P)) (object_list P),
           page_number = N\<rparr>"
    using page_final [OF L o N] .
  ultimately show ?thesis using N by simp
qed

lemma events_fallback_first:
  assumes "0 < page_length request"
    and "py_int (querydict_get (GET request) ''page'' ''1'') = None"
  shows "\<exists>pg. events py_int SortForm db request
             = Inr \<lparr>ctx_paginator = Paginator (Event_all_visible db) (page_length request)
                                       (page_length request div 10),
                    ctx_page = pg\<rparr>
           \<and> page py_int (Paginator (Event_all_visible db) (page_length request)
                            (page_length request div 10)) (PInt 1) = Inr pg
           \<and> page_number pg = 1"
proof -
  define P where "P = Paginator (Event_all_visible db) (page_length request)
                        (page_length request div 10)"
  have L: "0 < per_page P" and o: "0 \<le> orphans P"
    using assms(1) by (simp_all add: P_def Paginator_def pos_imp_zdiv_nonneg_iff)
  obtain pg where "(case page py_int P (PStr (querydict_get (GET request) ''page'' ''1'')) of
                Inl PageNotAnInteger \<Rightarrow> page py_int P (PInt 1)
              | Inl EmptyPage \<Rightarrow>
                  (case num_pages P of
                     Inl e \<Rightarrow> Inl e
                   | Inr n \<Rightarrow> page py_int P (PInt n))
              | Inl e \<Rightarrow> Inl e
              | Inr pg \<Rightarrow> Inr pg) = Inr pg"
    "page py_int P (PInt 1) = Inr pg" "page_number pg = 1"
    using fallback_first
        [where py_int = py_int and s = "querydict_get (GET request) ''page'' ''1''",
         OF L o assms(2)]
    by blast
  then show ?thesis
    unfolding P_def by (simp add: events_def Let_def)
qed

lemma events_fallback_last:
  assumes "0 < page_length request"
    and "py_int (querydict_get (GET request) ''page'' ''1'') = Some n"
    and "num_pages (Paginator (Event_all_visible db) (page_length request)
                      (page_length request div 10)) = Inr N"
    and "N < n"
  shows "\<exists>pg. events py_int SortForm db request
             = Inr \<lparr>ctx_paginator = Paginator (Event_all_visible db) (page_length request)
                                       (page_length request div 10),
                    ctx_page = pg\<rparr>
           \<and> page py_int (Paginator (Event_all_visible db) (page_length request)
                            (page_length request div 10)) (PInt N) = Inr pg
           \<and> page_number pg = N"
proof -
  define P where "P = Paginator (Event_all_visible db) (page_length request)
                        (page_length request div 10)"
  have L: "0 < per_page P" and o: "0 \<le> orphans P"
    using assms(1) by (simp_all add: P_def Paginator_def pos_imp_zdiv_nonneg_iff)
  have N: "num_pages P = Inr N" using assms(3) by (simp add: P_def)
  obtain pg where "(case page py_int P (PStr (querydict_get (GET request) ''page'' ''1'')) of
                Inl PageNotAnInteger \<Rightarrow> page py_int P (PInt 1)
              | Inl EmptyPage \<Rightarrow>
                  (case num_pages P of
                     Inl e \<Rightarrow> Inl e
                   | Inr n \<Rightarrow> page py_int P (PInt n))
              | Inl e \<Rightarrow> Inl e
              | Inr pg \<Rightarrow> Inr pg) = Inr pg"
    "page py_int P (PInt N) = Inr pg" "page_number pg = N"
    using fallback_last
        [where py_int = py_int and s = "querydict_get (GET request) ''page'' ''1''",
         OF L o assms(2) N assms(4)]
    by blast
  then show ?thesis
    unfolding P_def by (simp add: events_def Let_def)
qed

lemma search_fallback_first:
  assumes "0 < page_length request"
    and "py_int (querydict_get (GET request) ''page'' ''1'') = None"
  shows "\<exists>pg. paginate_search_results py_int request rs
             = Inr (page_object_list pg,
                    Paginator rs (page_length request) (page_length request div 10), pg)
           \<and> page py_int (Paginator rs (page_length request) (page_length request div 10))
                (PInt 1) = Inr pg
           \<and> page_number pg = 1"
proof -
  define P where "P = Paginator rs (page_length request) (page_length request div 10)"
  have L: "0 < per_page P" and o: "0 \<le> orphans P"
    using assms(1) by (simp_all add: P_def Paginator_def pos_imp_zdiv_nonneg_iff)
  obtain pg where "(case page py_int P (PStr (querydict_get (GET request) ''page'' ''1'')) of
                Inl PageNotAnInteger \<Rightarrow> page py_int P (PInt 1)
              | Inl EmptyPage \<Rightarrow>
                  (case num_pages P of
                     Inl e \<Rightarrow> Inl e
                   | Inr n \<Rightarrow> page py_int P (PInt n))
              | Inl e \<Rightarrow> Inl e
              | Inr pg \<Rightarrow> Inr pg) = Inr pg"
    "page py_int P (PInt 1) = Inr pg" "page_number pg = 1"
    using fallback_first
        [where py_int = py_int and s = "querydict_get (GET request) ''page'' ''1''",
         OF L o assms(2)]
    by blast
  then show ?thesis
    unfolding P_def by (simp add: paginate_search_results_def Let_def)
qed

lemma search_fallback_last:
  assumes "0 < page_length request"
    and "py_int (querydict_get (GET request) ''page'' ''1'') = Some n"
    and "num_pages (Paginator rs (page_length request) (page_length request div 10)) = Inr N"
    and "N < n"
  shows "\<exists>pg. paginate_search_results py_int request rs
             = Inr (page_object_list pg,
                    Paginator rs (page_length request) (page_length request div 10), pg)
           \<and> page py_int (Paginator rs (page_length request) (page_length request div 10))
                (PInt N) = Inr pg
           \<and> page_number pg = N"
proof -
  define P where "P = Paginator rs (page_length request) (page_length request div 10)"
  have L: "0 < per_page P" and o: "0 \<le> orphans P"
    using assms(1) by (simp_all add: P_def Paginator_def pos_imp_zdiv_nonneg_iff)
  have N: "num_pages P = Inr N" using assms(3) by (simp add: P_def)
  obtain pg where "(case page py_int P (PStr (querydict_get (GET request) ''page'' ''1'')) of
                Inl PageNotAnInteger \<Rightarrow> page py_int P (PInt 1)
              | Inl EmptyPage \<Rightarrow>
                  (case num_pages P of
                     Inl e \<Rightarrow> Inl e
                   | Inr n \<Rightarrow> page py_int P (PInt n))
              | Inl e \<Rightarrow> Inl e
              | Inr pg \<Rightarrow> Inr pg) = Inr pg"
    "page py_int P (PInt N) = Inr pg" "page_number pg = N"
    using fallback_last
        [where py_int = py_int and s = "querydict_get (GET request) ''page'' ''1''",
         OF L o assms(2) N assms(4)]
    by blast
  then show ?thesis
    unfolding P_def by (simp add: paginate_search_results_def Let_def)
qed

text \<open>
  The search listing, inside its view: with an active filter, the context holds the
  paginator and the page that \<open>paginate_search_results\<close> made of the ordered results.
\<close>

lemma adv_search_from_page:
  assumes "list_ex filter_active filters"
    and "paginate_search_results py_int request
           (get_search_results (ordering_key env) (execute_filters (corpus env) filters)
              (querydict_get (GET request) ''ordering'' ''rank'')) = Inr (es, P, pg)"
  shows "\<exists>ctx. adv_search_from py_int env clock request filters = Inr ctx
           \<and> sc_entries ctx = es \<and> sc_paginator ctx = Some P \<and> sc_page ctx = Some pg"
  using assms by (simp add: adv_search_from_def Let_def)

text \<open>
  Claim C2. The paginated listings are the events listing and the search listing (the
  advanced search, when a filter is active). In both, with a positive page length: when the
  \<open>page\<close> parameter is not numeric (\<open>int\<close> fails on it), the view shows page 1 of its
  paginator; when it is a number above the number of pages \<open>N\<close>, the view shows page
  \<open>N\<close>, the last one.
\<close>

theorem listing_page_fallback:
  assumes "0 < page_length request"
  shows "let page_num = querydict_get (GET request) ''page'' ''1'';
             events_paginator = Paginator (Event_all_visible db) (page_length request)
                                  (page_length request div 10);
             search_paginator = Paginator
                 (get_search_results (ordering_key env) (execute_filters (corpus env) filters)
                    (querydict_get (GET request) ''ordering'' ''rank''))
                 (page_length request) (page_length request div 10)
         in (py_int page_num = None \<longrightarrow>
               (\<exists>pg. events py_int SortForm db request
                        = Inr \<lparr>ctx_paginator = events_paginator, ctx_page = pg\<rparr>
                   \<and> page py_int events_paginator (PInt 1) = Inr pg \<and> page_number pg = 1)
             \<and> (list_ex filter_active filters \<longrightarrow>
                (\<exists>ctx pg. adv_search_from py_int env clock request filters = Inr ctx
                   \<and> sc_paginator ctx = Some search_paginator \<and> sc_page ctx = Some pg
                   \<and> sc_entries ctx = page_object_list pg
                   \<and> page py_int search_paginator (PInt 1) = Inr pg \<and> page_number pg = 1)))
          \<and> (\<forall>n. py_int page_num = Some n \<longrightarrow>
               (\<forall>N. num_pages events_paginator = Inr N \<and> N < n \<longrightarrow>
                  (\<exists>pg. events py_int SortForm db request
                           = Inr \<lparr>ctx_paginator = events_paginator, ctx_page = pg\<rparr>
                      \<and> page py_int events_paginator (PInt N) = Inr pg \<and> page_number pg = N))
             \<and> (\<forall>N. list_ex filter_active filters
                     \<and> num_pages search_paginator = Inr N \<and> N < n \<longrightarrow>
                  (\<exists>ctx pg. adv_search_from py_int env clock request filters = Inr ctx
                      \<and> sc_paginator ctx = Some search_paginator \<and> sc_page ctx = Some pg
                      \<and> sc_entries ctx = page_object_list pg
                      \<and> page py_int search_paginator (PInt N) = Inr pg \<and> page_number pg = N)))"
proof -
  let ?s = "querydict_get (GET request) ''page'' ''1''"
  let ?rs = "get_search_results (ordering_key env) (execute_filters (corpus env) filters)
               (querydict_get (GET request) ''ordering'' ''rank'')"
  let ?E = "Paginator (Event_all_visible db) (page_length request) (page_length request div 10)"
  let ?S = "Paginator ?rs (page_length request) (page_length request div 10)"
  have e1: "\<exists>pg. events py_int SortForm db request = Inr \<lparr>ctx_paginator = ?E, ctx_page = pg\<rparr>
               \<and> page py_int ?E (PInt 1) = Inr pg \<and> page_number pg = 1"
    if "py_int ?s = None"
    using events_fallback_first [where py_int = py_int and request = request, OF assms(1) that] .
  have s1: "\<exists>ctx pg. adv_search_from py_int env clock request filters = Inr ctx
               \<and> sc_paginator ctx = Some ?S \<and> sc_page ctx = Some pg
               \<and> sc_entries ctx = page_object_list pg
               \<and> page py_int ?S (PInt 1) = Inr pg \<and> page_number pg = 1"
    if none: "py_int ?s = None" and act: "list_ex filter_active filters"
  proof -
    obtain pg where pg: "paginate_search_results py_int request ?rs
                           = Inr (page_object_list pg, ?S, pg)"
      "page py_int ?S (PInt 1) = Inr pg" "page_number pg = 1"
      using search_fallback_first
          [where py_int = py_int and request = request and rs = ?rs, OF assms(1) none]
      by blast
    show ?thesis
      using adv_search_from_page [OF act pg(1), of clock] pg(2,3) by blast
  qed
  have eN: "\<exists>pg. events py_int SortForm db request = Inr \<lparr>ctx_paginator = ?E, ctx_page = pg\<rparr>
               \<and> page py_int ?E (PInt N) = Inr pg \<and> page_number pg = N"
    if "py_int ?s = Some n" "num_pages ?E = Inr N" "N < n" for n N
    using events_fallback_last [where py_int = py_int and request = request, OF assms(1) that] .
  have sN: "\<exists>ctx pg. adv_search_from py_int env clock request filters = Inr ctx
               \<and> sc_paginator ctx = Some ?S \<and> sc_page ctx = Some pg
               \<and> sc_entries ctx = page_object_list pg
               \<and> page py_int ?S (PInt N) = Inr pg \<and> page_number pg = N"
    if some: "py_int ?s = Some n" "num_pages ?S = Inr N" "N < n"
      and act: "list_ex filter_active filters" for n N
  proof -
    obtain pg where pg: "paginate_search_results py_int request ?rs
                           = Inr (page_object_list pg, ?S, pg)"
      "page py_int ?S (PInt N) = Inr pg" "page_number pg = N"
      using search_fallback_last
          [where py_int = py_int and request = request, OF assms(1) some]
      by blast
    show ?thesis
      using adv_search_from_page [OF act pg(1), of clock] pg(2,3) by blast
  qed
  show ?thesis unfolding Let_def using e1 s1 eN sN by blast
qed

text \<open>
  On the sample site, two to a page. The events listing has three visible events:
  \<open>page=abc\<close> shows the first two, \<open>page=7\<close> shows the third, which is page 2 of
  2. The search for \<open>storm\<close> finds three entries, entry 14 ranked first:
  \<open>page=abc\<close> shows entries 14 and 11, \<open>page=7\<close> shows entry 13 as page 2 of 2.
\<close>

theorem listing_page_fallback_witness:
  "events sample_py_int sample_sort_form sample_events request_page_abc
     = Inr \<lparr>ctx_paginator = Paginator (Event_all_visible sample_events) 2 0,
            ctx_page = \<lparr>page_object_list = [sample_events ! 0, sample_events ! 2],
                        page_number = 1\<rparr>\<rparr>
   \<and> events sample_py_int sample_sort_form sample_events request_page_7
     = Inr \<lparr>ctx_paginator = Paginator (Event_all_visible sample_events) 2 0,
            ctx_page = \<lparr>page_object_list = [sample_events ! 3], page_number = 2\<rparr>\<rparr>
   \<and> (\<exists>ctx. adv_search sample_py_int sample_env (3, 5) request_page_abc = Inr ctx
         \<and> sc_page ctx = Some \<lparr>page_object_list = [sample_entries ! 3, sample_entries ! 0],
                                page_number = 1\<rparr>)
   \<and> (\<exists>ctx. adv_search sample_py_int sample_env (3, 5) request_page_7 = Inr ctx
         \<and> sc_page ctx = Some \<lparr>page_object_list = [sample_entries ! 2], page_number = 2\<rparr>)"
proof -
  let ?f1 = "init_filters (filter_kinds sample_env) request_page_abc"
  let ?f2 = "init_filters (filter_kinds sample_env) request_page_7"
  let ?E = "Paginator (Event_all_visible sample_events) 2 0"
  let ?rs = "get_search_results (ordering_key sample_env)
               (execute_filters (corpus sample_env) ?f1) ''rank''"
  let ?S = "Paginator ?rs 2 0"
  have f: "?f2 = ?f1"
    by (simp add: init_filters_def init_filter_def request_page_abc_def request_page_7_def
        querydict_get_def sample_env_def sample_kinds_def)
  have g1: "page_length request_page_abc = 2"
    "querydict_get (GET request_page_abc) ''page'' ''1'' = ''abc''"
    "querydict_get (GET request_page_abc) ''ordering'' ''rank'' = ''rank''"
    by (simp_all add: request_page_abc_def querydict_get_def)
  have g2: "page_length request_page_7 = 2"
    "querydict_get (GET request_page_7) ''page'' ''1'' = ''7''"
    "querydict_get (GET request_page_7) ''ordering'' ''rank'' = ''rank''"
    by (simp_all add: request_page_7_def querydict_get_def)
  have act: "list_ex filter_active ?f1"
    by (simp add: init_filters_def init_filter_def sample_env_def sample_kinds_def
        request_page_abc_def querydict_get_def Let_def)
  have a: "sample_py_int ''abc'' = None" by code_simp
  have b: "sample_py_int ''7'' = Some 7" by code_simp
  have nE: "num_pages ?E = Inr 2" by code_simp
  have nS: "num_pages ?S = Inr 2" by code_simp
  have E1: "page sample_py_int ?E (PInt 1)
      = Inr \<lparr>page_object_list = [sample_events ! 0, sample_events ! 2], page_number = 1\<rparr>"
    by code_simp
  have E2: "page sample_py_int ?E (PInt 2)
      = Inr \<lparr>page_object_list = [sample_events ! 3], page_number = 2\<rparr>"
    by code_simp
  have S1: "page sample_py_int ?S (PInt 1)
      = Inr \<lparr>page_object_list = [sample_entries ! 3, sample_entries ! 0], page_number = 1\<rparr>"
    by code_simp
  have S2: "page sample_py_int ?S (PInt 2)
      = Inr \<lparr>page_object_list = [sample_entries ! 2], page_number = 2\<rparr>"
    by code_simp
  have t1: "(\<exists>pg. events sample_py_int sample_sort_form sample_events request_page_abc
                 = Inr \<lparr>ctx_paginator = ?E, ctx_page = pg\<rparr>
               \<and> page sample_py_int ?E (PInt 1) = Inr pg)
          \<and> (\<exists>ctx pg. adv_search_from sample_py_int sample_env (3, 5) request_page_abc ?f1 = Inr ctx
               \<and> sc_page ctx = Some pg \<and> page sample_py_int ?S (PInt 1) = Inr pg)"
    using listing_page_fallback [where request = request_page_abc and filters = ?f1
        and py_int = sample_py_int and db = sample_events and env = sample_env
        and SortForm = sample_sort_form and clock = "(3, 5)"]
      act a
    by (simp add: Let_def g1) blast
  have t2: "(\<exists>pg. events sample_py_int sample_sort_form sample_events request_page_7
                 = Inr \<lparr>ctx_paginator = ?E, ctx_page = pg\<rparr>
               \<and> page sample_py_int ?E (PInt 2) = Inr pg)
          \<and> (\<exists>ctx pg. adv_search_from sample_py_int sample_env (3, 5) request_page_7 ?f1 = Inr ctx
               \<and> sc_page ctx = Some pg \<and> page sample_py_int ?S (PInt 2) = Inr pg)"
    using listing_page_fallback [where request = request_page_7 and filters = ?f1
        and py_int = sample_py_int and db = sample_events and env = sample_env
        and SortForm = sample_sort_form and clock = "(3, 5)"]
      act b nE nS
    by (simp add: Let_def g2) blast
  show ?thesis
    using t1 t2 by (auto simp add: adv_search_def f E1 E2 S1 S2)
qed

subsection \<open>The sort form of the events listing\<close>

lemma map_of_filter_key:
  assumes "key \<notin> S"
  shows "map_of (filter (\<lambda>kv. fst kv \<notin> S) q) key = map_of q key"
  using assms by (induction q) auto

lemma querydict_get_filter:
  assumes "key \<notin> S"
  shows "querydict_get (filter (\<lambda>kv. fst kv \<notin> S) q) key d = querydict_get q key d"
  using map_of_filter_key [OF assms, of "rev q"]
  by (simp add: querydict_get_def rev_filter)

text \<open>
  Claim C9. Two requests whose queries agree on everything but \<open>sort_by\<close> and
  \<open>sort_ord\<close>, for the same user page length, get the same paginator and the same page
  of events: the result of \<open>order_by\<close> is dropped.
\<close>

theorem events_ignores_sort_form:
  assumes "filter (\<lambda>kv. fst kv \<notin> {''sort_by'', ''sort_ord''}) (GET r1)
             = filter (\<lambda>kv. fst kv \<notin> {''sort_by'', ''sort_ord''}) (GET r2)"
    and "page_length r1 = page_length r2"
  shows "events py_int SortForm db r1 = events py_int SortForm db r2"
proof -
  have "querydict_get (GET r1) ''page'' ''1'' = querydict_get (GET r2) ''page'' ''1''"
    using querydict_get_filter [of "''page''" "{''sort_by'', ''sort_ord''}" "GET r1" "''1''"]
      querydict_get_filter [of "''page''" "{''sort_by'', ''sort_ord''}" "GET r2" "''1''"] assms(1)
    by simp
  then show ?thesis using assms(2) by (simp add: events_def Let_def)
qed

text \<open>Sorting by name, descending, and sorting by date give the same listing.\<close>

theorem events_ignores_sort_form_witness:
  "events sample_py_int sample_sort_form sample_events
      \<lparr>GET = [(''sort_by'', ''name''), (''sort_ord'', ''-''), (''page'', ''1'')],
       page_length = 20\<rparr>
   = events sample_py_int sample_sort_form sample_events
      \<lparr>GET = [(''page'', ''1''), (''sort_ord'', ''+''), (''sort_by'', ''date'')],
       page_length = 20\<rparr>"
  by (rule events_ignores_sort_form) simp_all

section \<open>The tag query\<close>

text \<open>
  What the annotations are: a tag with \<open>e\<close> entries and \<open>v\<close> events gets the entry
  count \<open>e * max 1 v\<close> and the event count \<open>v * max 1 e\<close>, since each entry is in
  a joined row once for every event, and each event once for every entry.
\<close>

lemma Count_fst_product:
  "Count fst (List.product (outer_join es) (outer_join vs))
     = int (length es) * max 1 (int (length vs))"
proof -
  have "filter (\<lambda>r. fst r \<noteq> None) (List.product xs ys)
          = List.product (filter (\<lambda>x. x \<noteq> None) xs) ys" for xs ys :: "int option list"
    by (induction xs) (simp_all add: filter_map comp_def)
  moreover have "length (filter (\<lambda>x. x \<noteq> None) (outer_join es)) = length es"
    by (simp add: outer_join_def)
  moreover have "int (length (outer_join vs)) = max 1 (int (length vs))"
    by (cases vs) (simp_all add: outer_join_def)
  ultimately show ?thesis by (simp add: Count_def)
qed

lemma Count_snd_product:
  "Count snd (List.product (outer_join es) (outer_join vs))
     = int (length vs) * max 1 (int (length es))"
proof -
  have "length (filter (\<lambda>r. snd r \<noteq> None) (List.product xs ys))
          = length xs * length (filter (\<lambda>y. y \<noteq> None) ys)" for xs ys :: "int option list"
    by (induction xs) (simp_all add: filter_map comp_def)
  moreover have "length (filter (\<lambda>x. x \<noteq> None) (outer_join vs)) = length vs"
    by (simp add: outer_join_def)
  moreover have "int (length (outer_join es)) = max 1 (int (length es))"
    by (cases es) (simp_all add: outer_join_def)
  ultimately show ?thesis by (simp add: Count_def mult.commute)
qed

lemma annotated_counts:
  "entry_count (annotate t) = int (length (tag_entries t)) * max 1 (int (length (tag_events t)))"
  "event_count (annotate t) = int (length (tag_events t)) * max 1 (int (length (tag_entries t)))"
  by (simp_all add: annotate_def joined_rows_def Count_fst_product Count_snd_product)

text \<open>
  Claim C3 is right and the code is wrong. On two tags, \<open>allomancy\<close> with 3 entries
  and 3 events (6 uses) and \<open>awakening\<close> with 10 entries and no event (10 uses), the
  query \<open>a\<close> lists \<open>allomancy\<close> first, with the count 18, before \<open>awakening\<close> with
  the count 10: the result is not sorted by non-increasing combined usage count.
\<close>

theorem get_tags_counts_multiply:
  "results (get_tags
      [\<lparr>tag_name = ''allomancy'', tag_entries = [1, 2, 3], tag_events = [1, 2, 3]\<rparr>,
       \<lparr>tag_name = ''awakening'', tag_entries = [4, 5, 6, 7, 8, 9, 10, 11, 12, 13],
        tag_events = []\<rparr>]
      \<lparr>GET = [(''q'', ''a'')], page_length = 20\<rparr>)
     = [\<lparr>result_id = ''allomancy'', result_text = ''allomancy (18)''\<rparr>,
        \<lparr>result_id = ''awakening'', result_text = ''awakening (10)''\<rparr>]
   \<and> usage_count \<lparr>tag_name = ''allomancy'', tag_entries = [1, 2, 3], tag_events = [1, 2, 3]\<rparr>
       = 6
   \<and> usage_count \<lparr>tag_name = ''awakening'', tag_entries = [4, 5, 6, 7, 8, 9, 10, 11, 12, 13],
                    tag_events = []\<rparr>
       = 10"
  by code_simp

section \<open>Single events and entries\<close>

text \<open>
  Claim C5, as the spec has it, fails: an event that exists but is not visible is
  answered with 403 (\<open>PermissionDenied\<close>), and an entry that is not visible is
  redirected to the page of its event.
\<close>

theorem not_visible_not_found_counterexample:
  "status_code (view_event
       [\<lparr>event_id = 2, event_name = ''Draft'', event_date = 20, event_visible = False\<rparr>] [] 2)
     = 403
   \<and> status_code (view_entry sample_slugify sample_reverse
       [\<lparr>event_id = 3, event_name = ''Panel'', event_date = 5, event_visible = True\<rparr>]
       [\<lparr>entry_id = 13, entry_event_id = 3, entry_visible = False, entry_text = ''the storm ends''\<rparr>]
       13)
     = 302"
  by (simp add: status_code_def view_event_def view_entry_def get_object_or_404_def)

text \<open>
  Claim C5, amended. A request for an event or an entry that does not exist is answered
  with 404. A request for an event that exists and is not visible is answered with 403.
  \<open>view_entry\<close> does not look at visibility: an entry that exists is redirected to the
  page of its event, at the anchor of the entry.
\<close>

theorem missing_and_hidden_responses:
  "(find (\<lambda>e. event_id e = ev_id) Event_objects = None \<longrightarrow>
      status_code (view_event Event_objects Entry_objects ev_id) = 404)
   \<and> (find (\<lambda>e. entry_id e = en_id) Entry_objects = None \<longrightarrow>
      status_code (view_entry slugify reverse Event_objects Entry_objects en_id) = 404)
   \<and> (\<forall>ev. find (\<lambda>e. event_id e = ev_id) Event_objects = Some ev \<and> \<not> event_visible ev \<longrightarrow>
      status_code (view_event Event_objects Entry_objects ev_id) = 403)
   \<and> (\<forall>en ev. find (\<lambda>e. entry_id e = en_id) Entry_objects = Some en
          \<and> find (\<lambda>e. event_id e = entry_event_id en) Event_objects = Some ev \<longrightarrow>
      view_entry slugify reverse Event_objects Entry_objects en_id
        = Inr (Redirect (reverse ''view_event''
                           [str_int (entry_event_id en), slugify (event_name ev)]
                         @ ''#e'' @ str_int (entry_id en))))"
  by (simp add: status_code_def view_event_def view_entry_def get_object_or_404_def)

text \<open>
  On the sample site: event 9 and entry 99 do not exist, event 2 is hidden, and the
  hidden entry 13 of event 3 is redirected.
\<close>

theorem missing_and_hidden_responses_witness:
  "status_code (view_event sample_events sample_entries 9) = 404
   \<and> status_code (view_entry sample_slugify sample_reverse sample_events sample_entries 99) = 404
   \<and> status_code (view_event sample_events sample_entries 2) = 403
   \<and> view_entry sample_slugify sample_reverse sample_events sample_entries 13
        = Inr (Redirect ''/view_event/3/Panel/#e13'')"
proof -
  have a: "find (\<lambda>e. event_id e = 9) sample_events = None"
    by (simp add: sample_events_def)
  have b: "find (\<lambda>e. entry_id e = 99) sample_entries = None"
    by (simp add: sample_entries_def)
  have c: "find (\<lambda>e. event_id e = 2) sample_events = Some (sample_events ! 1)"
    "\<not> event_visible (sample_events ! 1)"
    by (simp_all add: sample_events_def)
  have d: "find (\<lambda>e. entry_id e = 13) sample_entries = Some (sample_entries ! 2)"
    "find (\<lambda>e. event_id e = entry_event_id (sample_entries ! 2)) sample_events
       = Some (sample_events ! 2)"
    by (simp_all add: sample_entries_def sample_events_def)
  have e: "sample_reverse ''view_event''
             [str_int (entry_event_id (sample_entries ! 2)),
              sample_slugify (event_name (sample_events ! 2))]
           @ ''#e'' @ str_int (entry_id (sample_entries ! 2)) = ''/view_event/3/Panel/#e13''"
    by code_simp
  show ?thesis
    using missing_and_hidden_responses
        [of 9 sample_events sample_entries 99 sample_slugify sample_reverse]
      missing_and_hidden_responses
        [of 2 sample_events sample_entries 13 sample_slugify sample_reverse]
      a b c d e
    by simp
qed

section \<open>The advanced search\<close>

subsection \<open>The search always answers\<close>

lemma page_objects_subset:
  assumes "page py_int p a = Inr pg"
  shows "set (page_object_list pg) \<subseteq> set (object_list p)"
  using assms
  by (auto simp add: page_def Let_def slice_def split: sum.splits if_splits
      dest!: in_set_takeD in_set_dropD)

lemma paginate_subset:
  assumes "paginate_search_results py_int request rs = Inr (es, p, pg)"
  shows "set es \<subseteq> set rs"
proof -
  let ?P = "Paginator rs (page_length request) (page_length request div 10)"
  from assms obtain a where "page py_int ?P a = Inr pg" "es = page_object_list pg"
    by (auto simp add: paginate_search_results_def Let_def split: sum.splits error.splits)
  then show ?thesis
    using page_objects_subset [where p = ?P and a = a and pg = pg and py_int = py_int]
    by (simp add: Paginator_def)
qed

lemma paginate_total:
  assumes "0 < page_length request"
  shows "\<exists>es p pg. paginate_search_results py_int request rs = Inr (es, p, pg)"
proof -
  define P where "P = Paginator rs (page_length request) (page_length request div 10)"
  define s where "s = querydict_get (GET request) ''page'' ''1''"
  have L: "0 < per_page P" and o: "0 \<le> orphans P"
    using assms by (simp_all add: P_def Paginator_def pos_imp_zdiv_nonneg_iff)
  obtain N where N: "num_pages P = Inr N"
    using L by (simp add: num_pages_def Let_def)
  have N1: "1 \<le> N" using num_pages_ge1 [OF L N] .
  obtain pgN where pgN: "page py_int P (PInt N) = Inr pgN" using page_final [OF L o N] by blast
  obtain pg1 where pg1: "page py_int P (PInt 1) = Inr pg1" using page_first [OF L o] by blast
  have ok: "\<exists>pg. page py_int P (PInt n) = Inr pg" if "1 \<le> n" "n \<le> N" for n
    using that page_inner [OF L o N, of n] pgN by (cases "n = N") auto
  have str: "page py_int P (PStr s) = page py_int P (PInt n)" if "py_int s = Some n" for n
    using that by (simp add: page_def validate_number_def to_int_def)
  have "\<exists>pg. (case page py_int P (PStr s) of
                Inl PageNotAnInteger \<Rightarrow> page py_int P (PInt 1)
              | Inl EmptyPage \<Rightarrow>
                  (case num_pages P of
                     Inl e \<Rightarrow> Inl e
                   | Inr n \<Rightarrow> page py_int P (PInt n))
              | Inl e \<Rightarrow> Inl e
              | Inr pg \<Rightarrow> Inr pg) = Inr pg"
  proof (cases "py_int s")
    case None
    then have "page py_int P (PStr s) = Inl PageNotAnInteger"
      by (simp add: page_def validate_number_def to_int_def)
    then show ?thesis using pg1 by simp
  next
    case (Some n)
    show ?thesis
    proof (cases "1 \<le> n \<and> n \<le> N")
      case True
      then show ?thesis using ok [of n] str [OF Some] by auto
    next
      case False
      then have "page py_int P (PStr s) = Inl EmptyPage"
        using Some N N1 by (auto simp add: page_def validate_number_def to_int_def)
      then show ?thesis using N pgN by simp
    qed
  qed
  then obtain pg where "(case page py_int P (PStr s) of
                Inl PageNotAnInteger \<Rightarrow> page py_int P (PInt 1)
              | Inl EmptyPage \<Rightarrow>
                  (case num_pages P of
                     Inl e \<Rightarrow> Inl e
                   | Inr n \<Rightarrow> page py_int P (PInt n))
              | Inl e \<Rightarrow> Inl e
              | Inr pg \<Rightarrow> Inr pg) = Inr pg" by blast
  then show ?thesis
    unfolding paginate_search_results_def Let_def P_def s_def by simp
qed

lemma adv_search_from_total:
  assumes "0 < page_length request"
  shows "\<exists>ctx. adv_search_from py_int env clock request filters = Inr ctx"
proof (cases "list_ex filter_active filters")
  case True
  obtain es p pg where "paginate_search_results py_int request
      (get_search_results (ordering_key env) (execute_filters (corpus env) filters)
         (querydict_get (GET request) ''ordering'' ''rank'')) = Inr (es, p, pg)"
    using paginate_total [OF assms] by blast
  then show ?thesis using True by (simp add: adv_search_from_def Let_def)
next
  case False
  then show ?thesis by (simp add: adv_search_from_def Let_def)
qed

lemma adv_search_total:
  assumes "0 < page_length request"
  shows "\<exists>ctx. adv_search py_int env clock request = Inr ctx"
  using adv_search_from_total [OF assms] by (simp add: adv_search_def)

lemma adv_search_from_filters:
  assumes "adv_search_from py_int env clock request filters = Inr ctx"
  shows "sc_filters ctx = filters"
  using assms
  by (auto simp add: adv_search_from_def Let_def split: if_splits sum.splits)

subsection \<open>No active filter\<close>

text \<open>
  Claim C1. When none of the filters built from the request is active, the view
  answers, and its context has no entries, no paginator, no page and the search time 0
  (and \<open>search_done\<close> is false).
\<close>

theorem adv_search_no_filter:
  assumes "\<not> list_ex filter_active filters"
  shows "\<exists>ctx. adv_search_from py_int env clock request filters = Inr ctx
           \<and> sc_entries ctx = [] \<and> sc_paginator ctx = None \<and> sc_page ctx = None
           \<and> sc_search_time ctx = 0 \<and> \<not> sc_search_done ctx"
  using assms by (simp add: adv_search_from_def Let_def)

text \<open>A request with an ordering and no filter parameter.\<close>

theorem adv_search_no_filter_witness:
  "\<exists>ctx. adv_search sample_py_int sample_env (3, 5) \<lparr>GET = [(''ordering'', ''date'')], page_length = 20\<rparr>
            = Inr ctx
      \<and> sc_entries ctx = [] \<and> sc_paginator ctx = None \<and> sc_page ctx = None
      \<and> sc_search_time ctx = 0 \<and> \<not> sc_search_done ctx"
proof -
  have "\<not> list_ex filter_active
          (init_filters (filter_kinds sample_env)
             \<lparr>GET = [(''ordering'', ''date'')], page_length = 20\<rparr>)"
    by (simp add: init_filters_def init_filter_def sample_env_def sample_kinds_def
        querydict_get_def inactive_filter_def)
  then show ?thesis
    unfolding adv_search_def Let_def by (rule adv_search_no_filter)
qed

subsection \<open>The echoed search parameters\<close>

lemma append_params_eq:
  "append_params acc fs = acc @ map as_url_param (filter filter_active fs)"
  by (induction fs arbitrary: acc) simp_all

text \<open>
  Claim C7. The view answers when the page length is positive, and the search
  parameters that it echoes are the encoded ordering followed by the URL parameters of
  the active filters, in their order, joined by \<open>&\<close>: a filter that is not active
  adds nothing.
\<close>

theorem search_params_active_only:
  "(0 < page_length request \<longrightarrow>
      (\<exists>ctx. adv_search_from py_int env clock request filters = Inr ctx))
   \<and> (\<forall>ctx. adv_search_from py_int env clock request filters = Inr ctx \<longrightarrow>
      sc_search_params ctx =
        join ''&'' (urlencode [(''ordering'', querydict_get (GET request) ''ordering'' ''rank'')]
                      # map as_url_param (filter filter_active filters)))"
proof -
  have "sc_search_params ctx =
        join ''&'' (urlencode [(''ordering'', querydict_get (GET request) ''ordering'' ''rank'')]
                      # map as_url_param (filter filter_active filters))"
    if "adv_search_from py_int env clock request filters = Inr ctx" for ctx
    using that
    by (auto simp add: adv_search_from_def Let_def append_params_eq split: if_splits sum.splits)
  then show ?thesis
    using adv_search_from_total
      [where request = request and env = env and clock = clock and filters = filters
        and py_int = py_int]
    by blast
qed

text \<open>The sample request has a query, no event, and an ordering that needs quoting.\<close>

theorem search_params_active_only_witness:
  "\<exists>ctx. adv_search_from sample_py_int sample_env (3, 5) sample_request
            (init_filters sample_kinds sample_request) = Inr ctx
      \<and> map filter_active (init_filters sample_kinds sample_request) = [True, False]
      \<and> sc_search_params ctx = ''ordering=r+k%2F~&query=storm''"
proof -
  note t = search_params_active_only
    [where request = sample_request and env = sample_env and clock = "(3, 5)"
       and filters = "init_filters sample_kinds sample_request" and py_int = sample_py_int]
  have "0 < page_length sample_request" by (simp add: sample_request_def)
  then obtain ctx where ctx: "adv_search_from sample_py_int sample_env (3, 5) sample_request
            (init_filters sample_kinds sample_request) = Inr ctx"
    using t by blast
  have a: "map filter_active (init_filters sample_kinds sample_request) = [True, False]"
    by (simp add: init_filters_def init_filter_def sample_kinds_def sample_request_def
        querydict_get_def inactive_filter_def Let_def)
  have b: "join ''&''
             (urlencode [(''ordering'', querydict_get (GET sample_request) ''ordering'' ''rank'')]
                # map as_url_param (filter filter_active (init_filters sample_kinds sample_request)))
           = ''ordering=r+k%2F~&query=storm''"
    by code_simp
  show ?thesis using t ctx a b by simp
qed

subsection \<open>The entries found\<close>

lemma execute_filters_sound:
  assumes "(e, s) \<in> set (execute_filters c fs)" "f \<in> set fs" "filter_active f"
  shows "filter_matches f e"
  using assms by (auto simp add: execute_filters_def Let_def list_all_iff split: if_splits)

lemma get_search_results_set:
  "set (get_search_results k es ordering_name) = fst ` set es"
  by (simp add: get_search_results_def)

lemma shown_entry_matches:
  assumes "adv_search_from py_int env clock request filters = Inr ctx"
    and "e \<in> set (sc_entries ctx)" and "f \<in> set filters" and "filter_active f"
  shows "filter_matches f e"
proof -
  have act: "list_ex filter_active filters" using assms(3,4) by (auto simp add: list_ex_iff)
  let ?rs = "get_search_results (ordering_key env) (execute_filters (corpus env) filters)
              (querydict_get (GET request) ''ordering'' ''rank'')"
  from assms(1) act obtain es p pg where
    pg: "paginate_search_results py_int request ?rs = Inr (es, p, pg)" and es: "sc_entries ctx = es"
    by (auto simp add: adv_search_from_def Let_def split: sum.splits)
  have "e \<in> set ?rs" using paginate_subset [OF pg] assms(2) es by auto
  then obtain s where "(e, s) \<in> set (execute_filters (corpus env) filters)"
    by (auto simp add: get_search_results_set)
  then show ?thesis using execute_filters_sound assms(3,4) by blast
qed

text \<open>
  Claim C6. The advanced search answers when the page length is positive, and every
  entry that it shows satisfies the predicate of every active filter.
\<close>

theorem adv_search_conjunctive:
  "(0 < page_length request \<longrightarrow>
      (\<exists>ctx. adv_search_from py_int env clock request filters = Inr ctx))
   \<and> (\<forall>ctx. adv_search_from py_int env clock request filters = Inr ctx \<longrightarrow>
        (\<forall>e \<in> set (sc_entries ctx). \<forall>f \<in> set filters.
           filter_active f \<longrightarrow> filter_matches f e))"
  using adv_search_from_total
      [where request = request and env = env and clock = clock and filters = filters
        and py_int = py_int]
    shown_entry_matches [where py_int = py_int]
  by blast

text \<open>
  The query \<open>storm\<close> for event 1 finds entry 11 alone, which has the word and belongs
  to the event.
\<close>

theorem adv_search_conjunctive_witness:
  "\<exists>ctx. adv_search sample_py_int sample_env (3, 5)
             \<lparr>GET = [(''query'', ''storm''), (''event'', ''1'')], page_length = 2\<rparr> = Inr ctx
      \<and> sc_entries ctx = [sample_entries ! 0]
      \<and> map filter_active (sc_filters ctx) = [True, True]
      \<and> (\<forall>f \<in> set (sc_filters ctx). filter_matches f (sample_entries ! 0))"
proof -
  let ?r = "\<lparr>GET = [(''query'', ''storm''), (''event'', ''1'')], page_length = 2\<rparr>"
  let ?fs = "init_filters (filter_kinds sample_env) ?r"
  note t = adv_search_conjunctive
    [where request = ?r and env = sample_env and clock = "(3, 5)" and filters = ?fs
       and py_int = sample_py_int]
  obtain ctx where ctx: "adv_search_from sample_py_int sample_env (3, 5) ?r ?fs = Inr ctx"
    using t by auto
  have "map_sum id sc_entries (adv_search_from sample_py_int sample_env (3, 5) ?r ?fs)
          = Inr [sample_entries ! 0]"
    by code_simp
  then have es: "sc_entries ctx = [sample_entries ! 0]" using ctx by simp
  have fs: "sc_filters ctx = ?fs" using adv_search_from_filters [OF ctx] .
  have act: "map filter_active ?fs = [True, True]"
    by (simp add: init_filters_def init_filter_def sample_env_def sample_kinds_def
        querydict_get_def Let_def)
  have all: "\<forall>f \<in> set ?fs. filter_active f"
    by (simp add: init_filters_def init_filter_def sample_env_def sample_kinds_def
        querydict_get_def Let_def)
  have "\<forall>f \<in> set ?fs. filter_matches f (sample_entries ! 0)"
    using t ctx es all by simp
  then show ?thesis using ctx es fs act by (simp add: adv_search_def)
qed

section \<open>The new sources of the home page\<close>

lemma set_sort_desc: "set (sort_desc f xs) = set xs"
  by (simp add: sort_desc_def)

lemma mset_sort_desc: "mset (sort_desc f xs) = mset xs"
  by (simp add: sort_desc_def)

lemma sorted_sort_desc: "sorted_wrt (\<lambda>a b. f a \<ge> f b) (sort_desc f xs)"
proof -
  have "sorted (map f (sort_key f (rev xs)))" by (rule sorted_sort_key)
  then have "sorted_wrt (\<lambda>a b. f a \<le> f b) (sort_key f (rev xs))"
    by (simp only: sorted_map)
  then show ?thesis by (simp add: sort_desc_def sorted_wrt_rev)
qed

text \<open>In a sorted list, what is cut off is below what is kept.\<close>

lemma sorted_wrt_take_drop:
  assumes "sorted_wrt P xs"
  shows "\<forall>a \<in> set (take n xs). \<forall>b \<in> set (drop n xs). P a b"
proof -
  have "sorted_wrt P (take n xs @ drop n xs)" using assms by simp
  then show ?thesis unfolding sorted_wrt_append by blast
qed

text \<open>The database's order is a permutation of the rows.\<close>

lemma mset_order_by_created_desc: "mset (order_by_created_desc nulls_first xs) = mset xs"
proof -
  have "mset (filter (\<lambda>s. created_date s \<noteq> None) xs) + mset (filter (\<lambda>s. created_date s = None) xs)
          = mset xs"
    by (induction xs) simp_all
  then show ?thesis
    by (auto simp add: order_by_created_desc_def Let_def mset_sort_desc union_commute)
qed

lemma sorted_wrt_all:
  assumes "\<forall>b \<in> set xs. \<forall>a. P a b"
  shows "sorted_wrt P xs"
  using assms by (induction xs) auto

lemma dated_newest_first:
  assumes "\<forall>s \<in> set xs. created_date s \<noteq> None"
    and "sorted_wrt (\<lambda>a b. the (created_date a) \<ge> the (created_date b)) xs"
  shows "sorted_wrt at_least_as_new xs"
  using assms(2)
proof (rule sorted_wrt_mono_rel [rotated])
  fix a b assume a: "a \<in> set xs" and b: "b \<in> set xs"
    and le: "the (created_date b) \<le> the (created_date a)"
  obtain da where da: "created_date a = Some da" using assms(1) a by blast
  obtain db where db: "created_date b = Some db" using assms(1) b by blast
  show "at_least_as_new a b" using le by (simp add: at_least_as_new_def da db)
qed

lemma undated_any_order:
  assumes "\<forall>s \<in> set ys. created_date s = None"
  shows "sorted_wrt at_least_as_new ys" and "\<forall>a \<in> set xs. \<forall>b \<in> set ys. at_least_as_new a b"
proof -
  have n: "at_least_as_new a b" if "b \<in> set ys" for a b
    using assms that by (simp add: at_least_as_new_def)
  show "sorted_wrt at_least_as_new ys" by (rule sorted_wrt_all) (simp add: n)
  show "\<forall>a \<in> set xs. \<forall>b \<in> set ys. at_least_as_new a b" by (simp add: n)
qed

text \<open>Where the rows without a date come last, the order is from the newest to the oldest.\<close>

lemma order_by_created_desc_newest_first:
  "sorted_wrt at_least_as_new (order_by_created_desc False xs)"
proof -
  define dated where
    "dated = sort_desc (\<lambda>s. the (created_date s)) (filter (\<lambda>s. created_date s \<noteq> None) xs)"
  define undated where "undated = filter (\<lambda>s. created_date s = None) xs"
  have d: "\<forall>s \<in> set dated. created_date s \<noteq> None"
    by (simp add: dated_def set_sort_desc)
  have u: "\<forall>s \<in> set undated. created_date s = None"
    by (simp add: undated_def)
  have "sorted_wrt (\<lambda>a b. the (created_date a) \<ge> the (created_date b)) dated"
    unfolding dated_def by (rule sorted_sort_desc)
  then have 1: "sorted_wrt at_least_as_new dated"
    using dated_newest_first [OF d] by blast
  have 2: "sorted_wrt at_least_as_new undated"
    and 3: "\<forall>a \<in> set dated. \<forall>b \<in> set undated. at_least_as_new a b"
    using undated_any_order [OF u] by blast+
  have "order_by_created_desc False xs = dated @ undated"
    by (simp add: order_by_created_desc_def Let_def dated_def undated_def)
  then show ?thesis using 1 2 3 by (simp only: sorted_wrt_append)
qed

text \<open>
  In a list sorted by descending key, where a dated source has a key above the default
  and an undated one has the default, nothing dated follows something undated.
\<close>

lemma undated_last_sorted:
  assumes "sorted_wrt (\<lambda>a b. source_key tz a \<ge> source_key tz b) xs"
    and "\<forall>s \<in> set xs. \<forall>d. created_date s = Some d \<longrightarrow> datetime_1900 tz < d"
  shows "undated_last xs"
  using assms
proof (induction xs)
  case Nil
  then show ?case by (simp add: undated_last_def)
next
  case (Cons x xs)
  show ?case
  proof (cases "created_date x")
    case None
    have "created_date y = None" if y: "y \<in> set xs" for y
    proof (cases "created_date y")
      case None
      then show ?thesis .
    next
      case (Some d)
      have "source_key tz y \<le> source_key tz x" using Cons.prems(1) y by simp
      then have "d \<le> datetime_1900 tz" using Some None by (simp add: source_key_def)
      moreover have "datetime_1900 tz < d" using Cons.prems(2) y Some by simp
      ultimately show ?thesis by simp
    qed
    then show ?thesis using None by (simp add: undated_last_def list_all_iff)
  next
    case (Some d)
    have "undated_last xs" using Cons by simp
    then show ?thesis using Some by (simp add: undated_last_def)
  qed
qed

text \<open>
  Claim C10, as the spec has it, fails in two places. A source without a date is not
  always sorted last: an audio source dated 1850-01-01 comes after an image source
  without a date, which counts as dated 1900-01-01. And the sources are not always drawn
  from the five newest of their table: where the database puts the rows without a date
  first, the audio sources 1, 2 and 3, which have no date, are listed, while the five
  newest audio sources are the dated ones, 10 to 6.
\<close>

theorem new_sources_counterexample:
  "index_new_sources False 0
     [\<lparr>source_kind = AudioSource, source_id = 31, created_date = Some (- 3786825600000000),
       source_visible = True\<rparr>]
     [\<lparr>source_kind = ImageSource, source_id = 32, created_date = None, source_visible = True\<rparr>]
   = [\<lparr>source_kind = ImageSource, source_id = 32, created_date = None, source_visible = True\<rparr>,
      \<lparr>source_kind = AudioSource, source_id = 31, created_date = Some (- 3786825600000000),
       source_visible = True\<rparr>]
   \<and> \<not> undated_last (index_new_sources False 0
     [\<lparr>source_kind = AudioSource, source_id = 31, created_date = Some (- 3786825600000000),
       source_visible = True\<rparr>]
     [\<lparr>source_kind = ImageSource, source_id = 32, created_date = None, source_visible = True\<rparr>])
   \<and> map source_id (index_new_sources True 0 undated_audio sample_images) = [23, 21, 1, 2, 3]
   \<and> map source_id (five_newest 0 (Source_all_visible undated_audio)) = [10, 9, 8, 7, 6]
   \<and> map source_id (five_newest 0 (Source_all_visible sample_images)) = [23, 21, 22]"
  by code_simp

text \<open>
  Claim C10, amended. The list of new sources has at most 5 items: 5, or all the merged
  ones when they are fewer. They are the latest of the first 5 visible audio sources and
  the first 5 visible image sources, each table in the order of the database by
  descending creation date; where the database puts the rows without a date last, these
  first 5 are the 5 newest of their table. The list is sorted by descending creation date,
  a source without a date counting as dated 1900-01-01, and the sources without a date
  come last when every dated source of the list is dated after 1900-01-01.
\<close>

theorem index_new_sources_sorted:
  "let audio = order_by_created_desc nulls_first (Source_all_visible AudioSource_objects);
       images = order_by_created_desc nulls_first (Source_all_visible ImageSource_objects);
       new_sources = index_new_sources nulls_first tz AudioSource_objects ImageSource_objects
   in length new_sources \<le> 5
    \<and> length new_sources = min 5 (length (take 5 audio) + length (take 5 images))
    \<and> (\<exists>rest. mset new_sources + mset rest = mset (take 5 audio) + mset (take 5 images)
          \<and> (\<forall>a \<in> set new_sources. \<forall>b \<in> set rest. source_key tz b \<le> source_key tz a))
    \<and> mset audio = mset (Source_all_visible AudioSource_objects)
    \<and> mset images = mset (Source_all_visible ImageSource_objects)
    \<and> (\<not> nulls_first \<longrightarrow>
          (\<forall>a \<in> set (take 5 audio). \<forall>b \<in> set (drop 5 audio). at_least_as_new a b)
        \<and> (\<forall>a \<in> set (take 5 images). \<forall>b \<in> set (drop 5 images). at_least_as_new a b))
    \<and> sorted_wrt (\<lambda>a b. source_key tz a \<ge> source_key tz b) new_sources
    \<and> ((\<forall>s \<in> set new_sources. \<forall>d. created_date s = Some d \<longrightarrow> datetime_1900 tz < d)
          \<longrightarrow> undated_last new_sources)"
proof -
  define audio where
    "audio = order_by_created_desc nulls_first (Source_all_visible AudioSource_objects)"
  define images where
    "images = order_by_created_desc nulls_first (Source_all_visible ImageSource_objects)"
  define merged where "merged = sort_desc (source_key tz) (take 5 audio @ take 5 images)"
  define ns where
    "ns = index_new_sources nulls_first tz AudioSource_objects ImageSource_objects"
  have ns: "ns = take 5 merged"
    by (simp add: ns_def merged_def audio_def images_def index_new_sources_def Let_def)
  have m: "sorted_wrt (\<lambda>a b. source_key tz a \<ge> source_key tz b) merged"
    unfolding merged_def by (rule sorted_sort_desc)
  have l1: "length ns \<le> 5" by (simp add: ns)
  have l2: "length ns = min 5 (length (take 5 audio) + length (take 5 images))"
    by (simp add: ns merged_def sort_desc_def min.commute)
  have "mset ns + mset (drop 5 merged) = mset merged"
    unfolding ns by (metis append_take_drop_id mset_append)
  then have r1: "mset ns + mset (drop 5 merged) = mset (take 5 audio) + mset (take 5 images)"
    by (simp add: merged_def mset_sort_desc)
  have r2: "\<forall>a \<in> set ns. \<forall>b \<in> set (drop 5 merged). source_key tz b \<le> source_key tz a"
    unfolding ns using sorted_wrt_take_drop [OF m] .
  have r: "\<exists>rest. mset ns + mset rest = mset (take 5 audio) + mset (take 5 images)
          \<and> (\<forall>a \<in> set ns. \<forall>b \<in> set rest. source_key tz b \<le> source_key tz a)"
    using r1 r2 by blast
  have p: "mset audio = mset (Source_all_visible AudioSource_objects)"
    "mset images = mset (Source_all_visible ImageSource_objects)"
    by (simp_all add: audio_def images_def mset_order_by_created_desc)
  have n: "(\<forall>a \<in> set (take 5 audio). \<forall>b \<in> set (drop 5 audio). at_least_as_new a b)
        \<and> (\<forall>a \<in> set (take 5 images). \<forall>b \<in> set (drop 5 images). at_least_as_new a b)"
    if "\<not> nulls_first"
    using that sorted_wrt_take_drop [OF order_by_created_desc_newest_first]
    by (simp add: audio_def images_def)
  have o: "sorted_wrt (\<lambda>a b. source_key tz a \<ge> source_key tz b) ns"
    unfolding ns using m by (rule sorted_wrt_take)
  have u: "undated_last ns"
    if "\<forall>s \<in> set ns. \<forall>d. created_date s = Some d \<longrightarrow> datetime_1900 tz < d"
    using undated_last_sorted [OF o that] .
  show ?thesis
    unfolding Let_def ns_def [symmetric] audio_def [symmetric] images_def [symmetric]
    using l1 l2 r p n o u by blast
qed

text \<open>
  The sample site has seven visible audio sources, two of them dated, and three visible
  image sources, two of them dated, in 2017 and 2018; its database puts the rows without
  a date last. The five new sources are the four dated ones and, last, one without a
  date; the two audio sources beyond the first five have no date.
\<close>

theorem index_new_sources_sorted_witness:
  "map source_id (index_new_sources False 0 sample_audio sample_images) = [23, 3, 21, 1, 2]
   \<and> map source_id (order_by_created_desc False (Source_all_visible sample_audio))
       = [3, 1, 2, 5, 6, 7, 8]
   \<and> list_all
        (\<lambda>a. list_all (at_least_as_new a)
               (drop 5 (order_by_created_desc False (Source_all_visible sample_audio))))
        (take 5 (order_by_created_desc False (Source_all_visible sample_audio)))
   \<and> sorted_wrt (\<lambda>a b. source_key 0 a \<ge> source_key 0 b)
        (index_new_sources False 0 sample_audio sample_images)
   \<and> undated_last (index_new_sources False 0 sample_audio sample_images)"
proof -
  have ids: "map source_id (index_new_sources False 0 sample_audio sample_images)
               = [23, 3, 21, 1, 2]"
    by code_simp
  have db: "map source_id (order_by_created_desc False (Source_all_visible sample_audio))
              = [3, 1, 2, 5, 6, 7, 8]"
    by code_simp
  have "list_all (\<lambda>s. case created_date s of None \<Rightarrow> True | Some d \<Rightarrow> datetime_1900 0 < d)
          (index_new_sources False 0 sample_audio sample_images)"
    by code_simp
  then have d: "\<forall>s \<in> set (index_new_sources False 0 sample_audio sample_images).
                 \<forall>d. created_date s = Some d \<longrightarrow> datetime_1900 0 < d"
    by (auto simp add: list_all_iff split: option.splits)
  show ?thesis
    using index_new_sources_sorted
        [where nulls_first = False and tz = 0 and AudioSource_objects = sample_audio
           and ImageSource_objects = sample_images]
      ids db d
    by (simp add: Let_def list_all_iff)
qed

end
